theory Spec2Isabelle
  imports Main "HOL-Library.Word"
begin

unbundle bit_operations_syntax

section \<open>The link-secret generator \<^verbatim>\<open>generate_link_secret.py\<close>\<close>

text \<open>
  The script draws 32 bytes from the operating system's entropy source, turns them into
  hexadecimal text, joins a directory and a file name into a path, writes the text to the
  file at that path and returns the path. Everything it does goes through five library
  calls: \<^verbatim>\<open>secrets.token_bytes\<close>, \<^verbatim>\<open>bytes.hex\<close>, \<^verbatim>\<open>os.path.join\<close>,
  \<^verbatim>\<open>open(.., "w")\<close> under \<^verbatim>\<open>with\<close>, and \<^verbatim>\<open>file.write\<close>. Each of them is
  modelled below as Python on a POSIX system defines it (the script's interpreter line
  \<^verbatim>\<open>py_virtual_env/bin/python3\<close> is the POSIX layout of a virtual environment), and
  the two functions of the script are translated on top of them, statement by statement.
\<close>

subsection \<open>Bytes and hexadecimal text\<close>

type_synonym byte = "8 word"

text \<open>The digit table of \<^verbatim>\<open>bytes.hex\<close>.\<close>

definition hex_digits :: string where
  "hex_digits = ''0123456789abcdef''"

text \<open>One byte gives two digits: the high nibble, then the low nibble.\<close>

definition hex_byte :: "byte \<Rightarrow> string" where
  "hex_byte c = [hex_digits ! unat (drop_bit 4 c), hex_digits ! unat (c AND 0x0f)]"

text \<open>\<^verbatim>\<open>random_binary.hex()\<close>\<close>

definition hex :: "byte list \<Rightarrow> string" where
  "hex bs = concat (map hex_byte bs)"

text \<open>
  \<^verbatim>\<open>bytes.fromhex\<close>, the decoder the round-trip property is stated with: ASCII white space
  is skipped where a byte may start, a byte is two hexadecimal digits of either case, and
  anything else is rejected (\<open>None\<close> stands for the \<^verbatim>\<open>ValueError\<close>).
\<close>

definition is_space :: "char \<Rightarrow> bool" where
  "is_space c = (c \<in> set [CHR '' '', CHR 0x09, CHR 0x0A, CHR 0x0B, CHR 0x0C, CHR 0x0D])"

definition digit_value :: "char \<Rightarrow> nat option" where
  "digit_value c =
     (let n = of_char c :: nat in
      if 48 \<le> n \<and> n \<le> 57 then Some (n - 48)
      else if 97 \<le> n \<and> n \<le> 102 then Some (n - 87)
      else if 65 \<le> n \<and> n \<le> 70 then Some (n - 55)
      else None)"

fun fromhex :: "string \<Rightarrow> byte list option" where
  "fromhex [] = Some []"
| "fromhex [c] = (if is_space c then Some [] else None)"
| "fromhex (c # d # rest) =
     (if is_space c then fromhex (d # rest)
      else case (digit_value c, digit_value d) of
             (Some hi, Some lo) \<Rightarrow> map_option ((#) (of_nat (16 * hi + lo))) (fromhex rest)
           | _ \<Rightarrow> None)"

subsection \<open>Paths\<close>

text \<open>
  \<^verbatim>\<open>os.path.join(a, b)\<close> of \<^verbatim>\<open>posixpath\<close>, for two components:
  \<^verbatim>\<open>
  if b.startswith('/'):                  path = b
  elif not path or path.endswith('/'):   path += b
  else:                                  path += '/' + b
  \<close>
\<close>

definition startswith_sep :: "string \<Rightarrow> bool" where
  "startswith_sep b = (case b of [] \<Rightarrow> False | c # _ \<Rightarrow> c = CHR ''/'')"

definition endswith_sep :: "string \<Rightarrow> bool" where
  "endswith_sep a = (case rev a of [] \<Rightarrow> False | c # _ \<Rightarrow> c = CHR ''/'')"

definition join :: "string \<Rightarrow> string \<Rightarrow> string" where
  "join a b =
     (if startswith_sep b then b
      else if a = [] \<or> endswith_sep a then a @ b
      else a @ ''/'' @ b)"

text \<open>Cutting a path at every \<open>/\<close>: \<^verbatim>\<open>p.split('/')\<close>, never the empty list.\<close>

fun split_sep :: "string \<Rightarrow> string list" where
  "split_sep [] = [[]]"
| "split_sep (c # cs) =
     (if c = CHR ''/'' then [] # split_sep cs
      else case split_sep cs of
             [] \<Rightarrow> [[c]]
           | w # ws \<Rightarrow> (c # w) # ws)"

subsection \<open>The world the script runs in\<close>

text \<open>
  A file-system object is a directory or a regular file; the flag says whether this process
  may write to it (for a directory: create entries in it). An object is identified by the
  list of names leading to it from the root, so two spellings of a path that reach the same
  object reach the same key. Search permission, links and mount points are left out.
\<close>

datatype node = Dir bool | File bool string

type_synonym key = "string list"

datatype errno = ENOENT | ENOTDIR | EISDIR | EACCES | ENOSPC | EBADF

datatype error = OSError errno | ValueError

record world =
  files :: "key \<rightharpoonup> node"      \<comment> \<open>the file system\<close>
  cwd :: key                    \<comment> \<open>the working directory of the process\<close>
  free :: nat                   \<comment> \<open>bytes the device can still take\<close>
  handles :: "(nat \<times> key) list" \<comment> \<open>open file descriptors and the files they refer to\<close>
  entropy :: "nat \<Rightarrow> byte"       \<comment> \<open>the bytes the system's random source delivers, in order\<close>
  drawn :: nat                  \<comment> \<open>how many of them have been consumed\<close>
  stdout :: string              \<comment> \<open>what has been written to standard output\<close>

text \<open>
  Path resolution, component by component: the object reached so far must be a directory
  before the next component is looked at; empty components and \<open>.\<close> stay, \<open>..\<close> goes
  up, a name goes down. The object the last component names is not inspected here.
\<close>

fun walk :: "(key \<rightharpoonup> node) \<Rightarrow> key \<Rightarrow> string list \<Rightarrow> errno + key" where
  "walk fs cur [] = Inr cur"
| "walk fs cur (c # cs) =
     (case fs cur of
        None \<Rightarrow> Inl ENOENT
      | Some (File _ _) \<Rightarrow> Inl ENOTDIR
      | Some (Dir _) \<Rightarrow>
          if c = [] \<or> c = ''.'' then walk fs cur cs
          else if c = ''..'' then walk fs (butlast cur) cs
          else walk fs (cur @ [c]) cs)"

text \<open>An absolute path starts at the root, a relative one at the working directory.\<close>

definition lookup :: "(key \<rightharpoonup> node) \<Rightarrow> key \<Rightarrow> string \<Rightarrow> errno + key" where
  "lookup fs wd p =
     (if p = [] then Inl ENOENT
      else walk fs (if startswith_sep p then [] else wd) (split_sep p))"

text \<open>
  Which object \<^verbatim>\<open>open(p, "w")\<close> (flags \<^verbatim>\<open>O_WRONLY | O_CREAT | O_TRUNC\<close>) opens: an
  existing regular file the process may write, or a new file in an existing directory the
  process may write. Everything else is refused with an error number.
\<close>

definition lookup_w :: "(key \<rightharpoonup> node) \<Rightarrow> key \<Rightarrow> string \<Rightarrow> errno + key" where
  "lookup_w fs wd p =
     (case lookup fs wd p of
        Inl e \<Rightarrow> Inl e
      | Inr k \<Rightarrow>
          (case fs k of
             Some (Dir _) \<Rightarrow> Inl EISDIR
           | Some (File w _) \<Rightarrow> if w then Inr k else Inl EACCES
           | None \<Rightarrow>
               (case fs (butlast k) of
                  Some (Dir w) \<Rightarrow> if w then Inr k else Inl EACCES
                | Some (File _ _) \<Rightarrow> Inl ENOTDIR
                | None \<Rightarrow> Inl ENOENT)))"

text \<open>The bytes an object occupies on the device: the content of a regular file.\<close>

definition stored :: "(key \<rightharpoonup> node) \<Rightarrow> key \<Rightarrow> nat" where
  "stored fs k = (case fs k of Some (File _ c) \<Rightarrow> length c | _ \<Rightarrow> 0)"

text \<open>A descriptor that is not in use.\<close>

definition new_fd :: "(nat \<times> key) list \<Rightarrow> nat" where
  "new_fd hs = Suc (fold max (map fst hs) 2)"

text \<open>
  \<^verbatim>\<open>open(p, "w")\<close>: a path with a NUL character is rejected by Python itself with
  \<^verbatim>\<open>ValueError\<close>; otherwise the system call decides. On success the file exists, is
  empty (its former bytes are given back to the device) and a new descriptor refers to it.
  On failure nothing changes.
\<close>

definition open_w :: "string \<Rightarrow> world \<Rightarrow> (error + nat) \<times> world" where
  "open_w p st =
     (if CHR 0x00 \<in> set p then (Inl ValueError, st)
      else case lookup_w (files st) (cwd st) p of
             Inl e \<Rightarrow> (Inl (OSError e), st)
           | Inr k \<Rightarrow>
               (let fd = new_fd (handles st)
                in (Inr fd,
                    st\<lparr>files := (files st)(k \<mapsto> File True []),
                       free := free st + stored (files st) k,
                       handles := (fd, k) # handles st\<rparr>)))"

text \<open>
  \<^verbatim>\<open>file.write(s)\<close>: the text goes to the end of the file. The text written here is
  ASCII, so the encoding of text mode leaves it as it is, and it has no line ends to
  translate. When the device cannot take all of it, what fits is written and the call
  fails with \<^verbatim>\<open>ENOSPC\<close>. Python's buffering only delays this to the moment the file is
  closed, which the \<^verbatim>\<open>with\<close> statement does at once, so it is not modelled.
\<close>

definition file_write :: "nat \<Rightarrow> string \<Rightarrow> world \<Rightarrow> (error + nat) \<times> world" where
  "file_write fd s st =
     (case map_of (handles st) fd of
        None \<Rightarrow> (Inl ValueError, st)
      | Some k \<Rightarrow>
          (case files st k of
             Some (File w c) \<Rightarrow>
               if length s \<le> free st
               then (Inr (length s),
                     st\<lparr>files := (files st)(k \<mapsto> File w (c @ s)), free := free st - length s\<rparr>)
               else (Inl (OSError ENOSPC),
                     st\<lparr>files := (files st)(k \<mapsto> File w (c @ take (free st) s)), free := 0\<rparr>)
           | _ \<Rightarrow> (Inl (OSError EBADF), st)))"

text \<open>\<^verbatim>\<open>file.close()\<close>: the descriptor is given back.\<close>

definition file_close :: "nat \<Rightarrow> world \<Rightarrow> world" where
  "file_close fd st = st\<lparr>handles := filter (\<lambda>h. fst h \<noteq> fd) (handles st)\<rparr>"

text \<open>
  \<^verbatim>\<open>with open(p, "w") as file: body\<close>. When the file cannot be opened the body does not
  run. Otherwise the body runs and the file is closed afterwards whether the body returned
  or raised; an error of the body is passed on.
\<close>

definition with_open_w ::
  "string \<Rightarrow> (nat \<Rightarrow> world \<Rightarrow> (error + 'a) \<times> world) \<Rightarrow> world \<Rightarrow> (error + 'a) \<times> world" where
  "with_open_w p body st =
     (case open_w p st of
        (Inl e, st1) \<Rightarrow> (Inl e, st1)
      | (Inr fd, st1) \<Rightarrow>
          (case body fd st1 of
             (r, st2) \<Rightarrow> (r, file_close fd st2)))"

text \<open>\<^verbatim>\<open>secrets.token_bytes(n)\<close>: the next \<open>n\<close> bytes of the random source.\<close>

definition token_bytes :: "nat \<Rightarrow> world \<Rightarrow> byte list \<times> world" where
  "token_bytes n st =
     (map (entropy st) [drawn st ..< drawn st + n], st\<lparr>drawn := drawn st + n\<rparr>)"

text \<open>\<^verbatim>\<open>print(s)\<close>: the text and a line end go to standard output.\<close>

definition print :: "string \<Rightarrow> world \<Rightarrow> world" where
  "print s st = st\<lparr>stdout := stdout st @ s @ [CHR 0x0A]\<rparr>"

text \<open>The content of the regular file a path names, as a later reader finds it.\<close>

definition read_file :: "world \<Rightarrow> string \<Rightarrow> string option" where
  "read_file st p =
     (if CHR 0x00 \<in> set p then None
      else case lookup (files st) (cwd st) p of
             Inl _ \<Rightarrow> None
           | Inr k \<Rightarrow> (case files st k of Some (File _ c) \<Rightarrow> Some c | _ \<Rightarrow> None))"

subsection \<open>Words for the state of the file system\<close>

text \<open>
  The conditions the description of the script speaks of: a path names an existing
  directory; the process may create entries in it; a path names some existing object; a
  file name is a single name, not a path of its own.
\<close>

definition directory_exists :: "world \<Rightarrow> string \<Rightarrow> bool" where
  "directory_exists st d =
     (case lookup (files st) (cwd st) d of
        Inl _ \<Rightarrow> False
      | Inr k \<Rightarrow> (case files st k of Some (Dir _) \<Rightarrow> True | _ \<Rightarrow> False))"

definition directory_writable :: "world \<Rightarrow> string \<Rightarrow> bool" where
  "directory_writable st d =
     (case lookup (files st) (cwd st) d of
        Inl _ \<Rightarrow> False
      | Inr k \<Rightarrow> (case files st k of Some (Dir w) \<Rightarrow> w | _ \<Rightarrow> False))"

definition path_exists :: "world \<Rightarrow> string \<Rightarrow> bool" where
  "path_exists st p =
     (case lookup (files st) (cwd st) p of
        Inl _ \<Rightarrow> False
      | Inr k \<Rightarrow> files st k \<noteq> None)"

definition plain_name :: "string \<Rightarrow> bool" where
  "plain_name f = (f \<noteq> [] \<and> CHR ''/'' \<notin> set f \<and> f \<noteq> ''.'' \<and> f \<noteq> ''..'')"

subsection \<open>The script\<close>

text \<open>
  \<^verbatim>\<open>
  def generate_and_write_secret(directory, file_name):
      random_binary = secrets.token_bytes(32)
      hex_representation = random_binary.hex()
      file_path = os.path.join(directory, file_name)
      with open(file_path, "w") as file:
          file.write(hex_representation)
      return file_path
  \<close>
  No exception is caught: an error of \<^verbatim>\<open>open\<close> or \<^verbatim>\<open>write\<close> is the result.
\<close>

definition generate_and_write_secret ::
  "string \<Rightarrow> string \<Rightarrow> world \<Rightarrow> (error + string) \<times> world" where
  "generate_and_write_secret directory file_name st =
     (case token_bytes 32 st of
        (random_binary, st1) \<Rightarrow>
          (let hex_representation = hex random_binary;
               file_path = join directory file_name
           in case with_open_w file_path (\<lambda>file. file_write file hex_representation) st1 of
                (Inl e, st2) \<Rightarrow> (Inl e, st2)
              | (Inr _, st2) \<Rightarrow> (Inr file_path, st2)))"

text \<open>
  \<^verbatim>\<open>
  if __name__ == "__main__":
      directory = "./crypto_data"
      file_name = "link_secret.txt"
      file_path = generate_and_write_secret(directory, file_name)
      print(f"Saved LinkSecretFile to {file_path}")
  \<close>
\<close>

definition main :: "world \<Rightarrow> (error + unit) \<times> world" where
  "main st =
     (let directory = ''./crypto_data'';
          file_name = ''link_secret.txt''
      in case generate_and_write_secret directory file_name st of
           (Inl e, st1) \<Rightarrow> (Inl e, st1)
         | (Inr file_path, st1) \<Rightarrow>
             (Inr (), print (''Saved LinkSecretFile to '' @ file_path) st1))"

subsection \<open>A small world to run the script in\<close>

text \<open>
  The root and \<open>/ro\<close> are directories the process may not write, \<open>/tmp\<close>, \<open>/home\<close> and
  \<open>/home/crypto_data\<close> directories it may write, \<open>/ro/f\<close> a file it may write; the
  process works in \<open>/home\<close>, the device has room for 100 bytes, and the random source
  delivers the bytes 3, 10, 17, ...
\<close>

definition example_world :: world where
  "example_world =
     \<lparr>files = [[] \<mapsto> Dir False, [''tmp''] \<mapsto> Dir True, [''home''] \<mapsto> Dir True,
               [''home'', ''crypto_data''] \<mapsto> Dir True, [''ro''] \<mapsto> Dir False,
               [''ro'', ''f''] \<mapsto> File True ''old''],
      cwd = [''home''], free = 100, handles = [],
      entropy = (\<lambda>n. of_nat (7 * n + 3)), drawn = 0, stdout = []\<rparr>"

text \<open>The same world with room for 10 bytes only.\<close>

definition full_world :: world where
  "full_world = example_world\<lparr>free := 10\<rparr>"

section \<open>Properties of the library operations\<close>

subsection \<open>Hexadecimal text\<close>

lemma hex_digit_table:
  "list_all (\<lambda>n. digit_value (hex_digits ! n) = Some n \<and> \<not> is_space (hex_digits ! n)) [0..<16]"
  by code_simp

lemma hex_digit_value: "n < 16 \<Longrightarrow> digit_value (hex_digits ! n) = Some n"
  using hex_digit_table by (simp add: list_all_iff)

lemma hex_digit_not_space: "n < 16 \<Longrightarrow> \<not> is_space (hex_digits ! n)"
  using hex_digit_table by (simp add: list_all_iff)

lemma hex_digit_in: "n < 16 \<Longrightarrow> hex_digits ! n \<in> set hex_digits"
  by (rule nth_mem) (simp add: hex_digits_def)

lemma unat_hi: "unat (drop_bit 4 (c::byte)) = unat c div 16"
  by (simp add: drop_bit_eq_div unat_div)

lemma unat_lo: "unat ((c::byte) AND 0x0f) = unat c mod 16"
proof -
  have "(0x0f::byte) = mask 4" by (simp add: mask_eq_exp_minus_1)
  then have "c AND 0x0f = take_bit 4 c" by (simp add: take_bit_eq_mask)
  then show ?thesis by (simp add: take_bit_eq_mod unat_mod)
qed

lemma hi_lt: "unat (drop_bit 4 (c::byte)) < 16"
proof -
  have "unat c < 256" using unsigned_less[of c] by simp
  then show ?thesis by (simp add: unat_hi)
qed

lemma lo_lt: "unat ((c::byte) AND 0x0f) < 16"
  by (simp add: unat_lo)

lemma recombine: "word_of_nat (16 * unat (drop_bit 4 c) + unat (c AND 0x0f)) = (c::byte)"
proof -
  have "16 * unat (drop_bit 4 c) + unat (c AND 0x0f) = unat c"
    by (simp add: unat_hi unat_lo)
  then have "word_of_nat (16 * unat (drop_bit 4 c) + unat (c AND 0x0f)) = (word_of_nat (unat c) :: byte)"
    by (rule arg_cong)
  then show ?thesis by simp
qed

lemma fromhex_hex_byte: "fromhex (hex_byte b @ s) = map_option ((#) b) (fromhex s)"
  using recombine[of b]
  by (simp add: hex_byte_def hex_digit_not_space hi_lt lo_lt hex_digit_value del: of_nat_add of_nat_mult)

lemma fromhex_hex_append: "fromhex (hex bs @ s) = map_option ((@) bs) (fromhex s)"
proof (induction bs)
  case Nil
  show ?case by (simp add: hex_def option.map_ident)
next
  case (Cons b bs)
  have "fromhex (hex (b # bs) @ s) = fromhex (hex_byte b @ (hex bs @ s))"
    by (simp add: hex_def)
  also have "\<dots> = map_option ((#) b) (map_option ((@) bs) (fromhex s))"
    by (simp only: fromhex_hex_byte Cons.IH)
  also have "\<dots> = map_option ((@) (b # bs)) (fromhex s)"
    by (cases "fromhex s") simp_all
  finally show ?case .
qed

lemma fromhex_hex: "fromhex (hex bs) = Some bs"
  using fromhex_hex_append[of bs "[]"] by simp

lemma hex_inj: "hex a = hex b \<Longrightarrow> a = b"
proof -
  assume "hex a = hex b"
  then have "fromhex (hex a) = fromhex (hex b)" by (rule arg_cong)
  then show "a = b" by (simp only: fromhex_hex option.inject)
qed

lemma length_hex: "length (hex bs) = 2 * length bs"
  by (induction bs) (simp_all add: hex_def hex_byte_def)

lemma set_hex: "set (hex bs) \<subseteq> set hex_digits"
  by (induction bs) (simp_all add: hex_def hex_byte_def hex_digit_in hi_lt lo_lt)

subsection \<open>Descriptors and path resolution\<close>

lemma fold_max_ge_init: "a \<le> fold max xs (a::nat)"
proof (induction xs arbitrary: a)
  case Nil show ?case by simp
next
  case (Cons x xs)
  have "a \<le> max x a" by simp
  also have "\<dots> \<le> fold max xs (max x a)" by (rule Cons.IH)
  finally show ?case by simp
qed

lemma fold_max_ge_elem: "x \<in> set xs \<Longrightarrow> x \<le> fold max xs (a::nat)"
proof (induction xs arbitrary: a)
  case Nil then show ?case by simp
next
  case (Cons y ys)
  show ?case
  proof (cases "x = y")
    case True
    have "x \<le> max y a" using True by simp
    also have "\<dots> \<le> fold max ys (max y a)" by (rule fold_max_ge_init)
    finally show ?thesis by simp
  next
    case False
    with Cons.prems have "x \<in> set ys" by simp
    then show ?thesis by (simp add: Cons.IH)
  qed
qed

lemma new_fd_above: "h \<in> set hs \<Longrightarrow> fst h < new_fd hs"
  unfolding new_fd_def using fold_max_ge_elem[of "fst h" "map fst hs" 2] by auto

lemma new_fd_unused: "map_of hs (new_fd hs) = None"
proof -
  have "\<forall>h\<in>set hs. fst h < new_fd hs" by (simp add: new_fd_above)
  then have "new_fd hs \<notin> fst ` set hs" by fastforce
  then show ?thesis by (simp add: map_of_eq_None_iff)
qed

lemma filter_new_fd: "filter (\<lambda>h. fst h \<noteq> new_fd hs) hs = hs"
proof -
  have "\<forall>h\<in>set hs. fst h < new_fd hs" by (simp add: new_fd_above)
  then have "\<forall>h\<in>set hs. fst h \<noteq> new_fd hs" by fastforce
  then show ?thesis by (simp add: filter_id_conv)
qed

lemma walk_stable:
  "walk fs cur cs = Inr k \<Longrightarrow> (\<And>x w. fs x = Some (Dir w) \<Longrightarrow> \<exists>w'. fs' x = Some (Dir w'))
     \<Longrightarrow> walk fs' cur cs = Inr k"
proof (induction cs arbitrary: cur)
  case Nil
  then show ?case by simp
next
  case (Cons c cs)
  from Cons.prems(1) obtain w where d: "fs cur = Some (Dir w)"
    by (auto split: option.splits node.splits)
  from Cons.prems(2)[OF d] obtain w' where d': "fs' cur = Some (Dir w')" by blast
  from Cons.prems(1) d have
    "(if c = [] \<or> c = ''.'' then walk fs cur cs
      else if c = ''..'' then walk fs (butlast cur) cs else walk fs (cur @ [c]) cs) = Inr k"
    by simp
  then have
    "(if c = [] \<or> c = ''.'' then walk fs' cur cs
      else if c = ''..'' then walk fs' (butlast cur) cs else walk fs' (cur @ [c]) cs) = Inr k"
    using Cons.IH Cons.prems(2) by (auto split: if_splits)
  then show ?case using d' by simp
qed

lemma lookup_w_not_dir: "lookup_w fs wd p = Inr k \<Longrightarrow> fs k \<noteq> Some (Dir w)"
  by (auto simp: lookup_w_def split: sum.splits option.splits node.splits if_splits)

lemma lookup_w_lookup: "lookup_w fs wd p = Inr k \<Longrightarrow> lookup fs wd p = Inr k"
  by (auto simp: lookup_w_def split: sum.splits option.splits node.splits if_splits)

lemma lookup_after_write:
  assumes "lookup_w fs wd p = Inr k"
  shows "lookup (fs(k \<mapsto> File w c)) wd p = Inr k"
proof -
  from assms have l: "lookup fs wd p = Inr k" by (rule lookup_w_lookup)
  then have ne: "p \<noteq> []" by (auto simp: lookup_def split: if_splits)
  from l ne have "walk fs (if startswith_sep p then [] else wd) (split_sep p) = Inr k"
    by (simp add: lookup_def)
  then have "walk (fs(k \<mapsto> File w c)) (if startswith_sep p then [] else wd) (split_sep p) = Inr k"
  proof (rule walk_stable)
    fix x b assume "fs x = Some (Dir b)"
    with lookup_w_not_dir[OF assms, of b] have "x \<noteq> k" by auto
    then show "\<exists>w'. (fs(k \<mapsto> File w c)) x = Some (Dir w')" using \<open>fs x = Some (Dir b)\<close> by simp
  qed
  with ne show ?thesis by (simp add: lookup_def)
qed

subsection \<open>Joined paths\<close>

lemma split_sep_nonempty: "split_sep s \<noteq> []"
  by (induction s) (auto split: list.splits)

lemma split_sep_append: "split_sep (a @ CHR ''/'' # b) = split_sep a @ split_sep b"
proof (induction a)
  case Nil
  show ?case by simp
next
  case (Cons c a)
  obtain w ws where w: "split_sep a = w # ws"
    using split_sep_nonempty[of a] by (cases "split_sep a") auto
  show ?case using Cons.IH w by simp
qed

lemma split_sep_plain: "CHR ''/'' \<notin> set f \<Longrightarrow> split_sep f = [f]"
  by (induction f) auto

lemma walk_append:
  "walk fs cur (xs @ ys) = (case walk fs cur xs of Inl e \<Rightarrow> Inl e | Inr k \<Rightarrow> walk fs k ys)"
  by (induction xs arbitrary: cur) (auto split: option.splits node.splits)

lemma walk_not_dir:
  assumes "\<not> (\<exists>w. fs k = Some (Dir w))" and "ys \<noteq> []"
  shows "\<exists>e. walk fs k ys = Inl e"
  using assms by (cases ys) (auto split: option.splits node.splits)

lemma walk_through_missing:
  assumes "\<not> (\<exists>k w. walk fs cur xs = Inr k \<and> fs k = Some (Dir w))" and "ys \<noteq> []"
  shows "\<exists>e. walk fs cur (xs @ ys) = Inl e"
proof (cases "walk fs cur xs")
  case (Inl e)
  then show ?thesis by (simp add: walk_append)
next
  case (Inr k)
  with assms(1) have "\<not> (\<exists>w. fs k = Some (Dir w))" by simp
  then have "\<exists>e. walk fs k ys = Inl e" using assms(2) by (rule walk_not_dir)
  with Inr show ?thesis by (simp add: walk_append)
qed

lemma endswith_sep_snoc: "endswith_sep a \<Longrightarrow> \<exists>a'. a = a' @ ''/''"
  by (cases a rule: rev_cases) (auto simp: endswith_sep_def)

lemma startswith_sep_append: "d \<noteq> [] \<Longrightarrow> startswith_sep (d @ r) = startswith_sep d"
  by (cases d) (auto simp: startswith_sep_def)

lemma lookup_join_missing:
  assumes "d \<noteq> []" and "\<not> startswith_sep f"
    and "\<not> (\<exists>k w. lookup fs wd d = Inr k \<and> fs k = Some (Dir w))"
  shows "\<exists>e. lookup fs wd (join d f) = Inl e"
proof (cases "endswith_sep d")
  case True
  then obtain d' where d': "d = d' @ ''/''" using endswith_sep_snoc by blast
  have j: "join d f = d' @ CHR ''/'' # f" using assms(1,2) True d' by (simp add: join_def)
  have s: "startswith_sep (join d f) = startswith_sep d"
    using assms(1,2) True startswith_sep_append[OF assms(1), of f] by (simp add: join_def)
  let ?start = "if startswith_sep d then [] else wd"
  have ld: "lookup fs wd d = walk fs ?start (split_sep d' @ [[]])"
    using assms(1) d' split_sep_append[of d' "[]"] by (simp add: lookup_def)
  have "\<not> (\<exists>k w. walk fs ?start (split_sep d') = Inr k \<and> fs k = Some (Dir w))"
  proof
    assume "\<exists>k w. walk fs ?start (split_sep d') = Inr k \<and> fs k = Some (Dir w)"
    then obtain k w where "walk fs ?start (split_sep d') = Inr k" "fs k = Some (Dir w)" by blast
    then have "lookup fs wd d = Inr k" by (simp add: ld walk_append)
    with \<open>fs k = Some (Dir w)\<close> assms(3) show False by blast
  qed
  from walk_through_missing[OF this split_sep_nonempty[of f]]
  obtain e where "walk fs ?start (split_sep d' @ split_sep f) = Inl e" by blast
  then have "lookup fs wd (join d f) = Inl e"
    unfolding lookup_def s by (simp add: j split_sep_append)
  then show ?thesis by blast
next
  case False
  have j: "join d f = d @ CHR ''/'' # f" using assms(1,2) False by (simp add: join_def)
  have s: "startswith_sep (join d f) = startswith_sep d"
    using startswith_sep_append[OF assms(1), of "CHR ''/'' # f"] by (simp add: j)
  let ?start = "if startswith_sep d then [] else wd"
  have "\<not> (\<exists>k w. walk fs ?start (split_sep d) = Inr k \<and> fs k = Some (Dir w))"
    using assms(1,3) by (simp add: lookup_def)
  from walk_through_missing[OF this split_sep_nonempty[of f]]
  obtain e where "walk fs ?start (split_sep d @ split_sep f) = Inl e" by blast
  then have "lookup fs wd (join d f) = Inl e"
    unfolding lookup_def s by (simp add: j split_sep_append)
  then show ?thesis by blast
qed

lemma missing_directory_refused:
  assumes "d \<noteq> []" and "\<not> startswith_sep f" and "CHR 0x00 \<notin> set (join d f)"
    and "\<not> directory_exists st d"
  shows "\<exists>e. fst (open_w (join d f) st) = Inl (OSError e)"
proof -
  from assms(4) have "\<not> (\<exists>k w. lookup (files st) (cwd st) d = Inr k \<and> files st k = Some (Dir w))"
    by (auto simp: directory_exists_def)
  from lookup_join_missing[OF assms(1,2) this]
  obtain e where "lookup (files st) (cwd st) (join d f) = Inl e" by blast
  then have "lookup_w (files st) (cwd st) (join d f) = Inl e" by (simp add: lookup_w_def)
  with assms(3) show ?thesis by (auto simp: open_w_def)
qed


lemma plain_name_relative: "plain_name f \<Longrightarrow> \<not> startswith_sep f"
  by (cases f) (auto simp: plain_name_def startswith_sep_def)

lemma walk_plain:
  assumes "fs k = Some (Dir w)" and "plain_name f"
  shows "walk fs k (split_sep f) = Inr (k @ [f])"
proof -
  from assms(2) have "split_sep f = [f]" by (simp add: plain_name_def split_sep_plain)
  with assms show ?thesis by (simp add: plain_name_def)
qed

lemma lookup_join_plain:
  assumes "d \<noteq> []" and "plain_name f"
    and "lookup fs wd d = Inr k" and "fs k = Some (Dir w)"
  shows "lookup fs wd (join d f) = Inr (k @ [f])"
proof (cases "endswith_sep d")
  case True
  then obtain d' where d': "d = d' @ ''/''" using endswith_sep_snoc by blast
  have wp: "walk fs k (split_sep f) = Inr (k @ [f])" using assms(4,2) by (rule walk_plain)
  have rel: "\<not> startswith_sep f" using assms(2) by (rule plain_name_relative)
  have j: "join d f = d' @ CHR ''/'' # f" using assms(1) rel True d' by (simp add: join_def)
  have s: "startswith_sep (join d f) = startswith_sep d"
    using assms(1) rel True startswith_sep_append[OF assms(1), of f] by (simp add: join_def)
  let ?start = "if startswith_sep d then [] else wd"
  have "walk fs ?start (split_sep d' @ [[]]) = Inr k"
    using assms(1,3) d' split_sep_append[of d' "[]"] by (simp add: lookup_def)
  then have "walk fs ?start (split_sep d') = Inr k"
    by (auto simp: walk_append split: sum.splits option.splits node.splits)
  then have "walk fs ?start (split_sep d' @ split_sep f) = Inr (k @ [f])"
    using wp by (simp add: walk_append)
  then show ?thesis unfolding lookup_def s by (simp add: j split_sep_append)
next
  case False
  have wp: "walk fs k (split_sep f) = Inr (k @ [f])" using assms(4,2) by (rule walk_plain)
  have rel: "\<not> startswith_sep f" using assms(2) by (rule plain_name_relative)
  have j: "join d f = d @ CHR ''/'' # f" using assms(1) rel False by (simp add: join_def)
  have s: "startswith_sep (join d f) = startswith_sep d"
    using startswith_sep_append[OF assms(1), of "CHR ''/'' # f"] by (simp add: j)
  let ?start = "if startswith_sep d then [] else wd"
  have "walk fs ?start (split_sep d) = Inr k" using assms(1,3) by (simp add: lookup_def)
  then have "walk fs ?start (split_sep d @ split_sep f) = Inr (k @ [f])"
    using wp by (simp add: walk_append)
  then show ?thesis unfolding lookup_def s by (simp add: j split_sep_append)
qed

lemma unwritable_directory_refused:
  assumes "d \<noteq> []" and "plain_name f" and "CHR 0x00 \<notin> set (join d f)"
    and "directory_exists st d" and "\<not> directory_writable st d"
    and "\<not> path_exists st (join d f)"
  shows "fst (open_w (join d f) st) = Inl (OSError EACCES)"
proof -
  from assms(4) obtain k w where k: "lookup (files st) (cwd st) d = Inr k"
    and w: "files st k = Some (Dir w)"
    by (auto simp: directory_exists_def split: sum.splits option.splits node.splits)
  from assms(5) k w have nw: "files st k = Some (Dir False)"
    by (simp add: directory_writable_def)
  have l: "lookup (files st) (cwd st) (join d f) = Inr (k @ [f])"
    using assms(1,2) k w by (rule lookup_join_plain)
  with assms(6) have "files st (k @ [f]) = None" by (simp add: path_exists_def)
  with l nw have "lookup_w (files st) (cwd st) (join d f) = Inl EACCES"
    by (simp add: lookup_w_def)
  with assms(3) show ?thesis by (simp add: open_w_def)
qed

section \<open>What one call does\<close>

text \<open>
  A call ends in one of four ways: Python rejects the path, the operating system refuses
  to open the file, the text is written, or the device is full. In each of them the state
  after the call is known field by field.
\<close>

lemma length_token_bytes: "length (fst (token_bytes n st)) = n"
  by (simp add: token_bytes_def)

lemma length_secret_hex: "length (hex (fst (token_bytes 32 st))) = 64"
  by (simp add: length_hex length_token_bytes)

lemma gen_nul:
  assumes "CHR 0x00 \<in> set (join d f)"
  shows "generate_and_write_secret d f st = (Inl ValueError, snd (token_bytes 32 st))"
  using assms
  by (simp add: generate_and_write_secret_def with_open_w_def open_w_def split: prod.splits)

lemma gen_refused:
  assumes "CHR 0x00 \<notin> set (join d f)"
    and "lookup_w (files st) (cwd st) (join d f) = Inl e"
  shows "generate_and_write_secret d f st = (Inl (OSError e), snd (token_bytes 32 st))"
  using assms
  by (simp add: generate_and_write_secret_def with_open_w_def open_w_def token_bytes_def
      split: prod.splits)

lemma gen_written:
  assumes "CHR 0x00 \<notin> set (join d f)"
    and "lookup_w (files st) (cwd st) (join d f) = Inr k"
    and "64 \<le> free st + stored (files st) k"
  shows "fst (generate_and_write_secret d f st) = Inr (join d f)"
    and "files (snd (generate_and_write_secret d f st)) =
           (files st)(k \<mapsto> File True (hex (fst (token_bytes 32 st))))"
    and "free (snd (generate_and_write_secret d f st)) = free st + stored (files st) k - 64"
    and "handles (snd (generate_and_write_secret d f st)) = handles st"
  using assms length_secret_hex[of st]
  by (simp_all add: generate_and_write_secret_def with_open_w_def open_w_def file_write_def
      file_close_def new_fd_unused filter_new_fd Let_def token_bytes_def split: prod.splits)

lemma gen_device_full:
  assumes "CHR 0x00 \<notin> set (join d f)"
    and "lookup_w (files st) (cwd st) (join d f) = Inr k"
    and "\<not> 64 \<le> free st + stored (files st) k"
  shows "fst (generate_and_write_secret d f st) = Inl (OSError ENOSPC)"
    and "files (snd (generate_and_write_secret d f st)) =
           (files st)(k \<mapsto> File True (take (free st + stored (files st) k)
                                          (hex (fst (token_bytes 32 st)))))"
    and "free (snd (generate_and_write_secret d f st)) = 0"
    and "handles (snd (generate_and_write_secret d f st)) = handles st"
  using assms length_secret_hex[of st]
  by (simp_all add: generate_and_write_secret_def with_open_w_def open_w_def file_write_def
      file_close_def new_fd_unused filter_new_fd Let_def token_bytes_def split: prod.splits)

lemma gen_frame:
  "cwd (snd (generate_and_write_secret d f st)) = cwd st"
  "entropy (snd (generate_and_write_secret d f st)) = entropy st"
  "drawn (snd (generate_and_write_secret d f st)) = drawn st + 32"
  "stdout (snd (generate_and_write_secret d f st)) = stdout st"
  by (simp_all add: generate_and_write_secret_def with_open_w_def open_w_def file_write_def
      file_close_def Let_def token_bytes_def
      split: prod.splits sum.splits option.splits node.splits)

lemma gen_success:
  assumes "fst (generate_and_write_secret d f st) = Inr p"
  obtains k where "p = join d f" and "CHR 0x00 \<notin> set (join d f)"
    and "lookup_w (files st) (cwd st) (join d f) = Inr k"
    and "64 \<le> free st + stored (files st) k"
proof (cases "CHR 0x00 \<in> set (join d f)")
  case True
  with assms show ?thesis by (simp add: gen_nul)
next
  case nul: False
  show ?thesis
  proof (cases "lookup_w (files st) (cwd st) (join d f)")
    case (Inl e)
    with assms nul show ?thesis by (simp add: gen_refused)
  next
    case (Inr k)
    show ?thesis
    proof (cases "64 \<le> free st + stored (files st) k")
      case True
      with assms nul Inr gen_written(1)[of d f st k] that[of k] show ?thesis by simp
    next
      case False
      with assms nul Inr gen_device_full(1)[of d f st k] show ?thesis by simp
    qed
  qed
qed

lemma read_after_write:
  assumes "CHR 0x00 \<notin> set p" and "lookup_w (files st) (cwd st) p = Inr k"
    and "files st' = (files st)(k \<mapsto> File True c)" and "cwd st' = cwd st"
  shows "read_file st' p = Some c"
  using assms lookup_after_write[OF assms(2), of True c]
  by (simp add: read_file_def)

lemma gen_read:
  assumes "fst (generate_and_write_secret d f st) = Inr p"
  shows "read_file (snd (generate_and_write_secret d f st)) p = Some (hex (fst (token_bytes 32 st)))"
proof -
  from assms obtain k where k: "p = join d f" "CHR 0x00 \<notin> set (join d f)"
    "lookup_w (files st) (cwd st) (join d f) = Inr k" "64 \<le> free st + stored (files st) k"
    by (rule gen_success)
  show ?thesis
    unfolding k(1)
    by (rule read_after_write[OF k(2) k(3) gen_written(2)[OF k(2) k(3) k(4)] gen_frame(1)])
qed

lemma gen_handles: "handles (snd (generate_and_write_secret d f st)) = handles st"
proof (cases "CHR 0x00 \<in> set (join d f)")
  case True
  then show ?thesis by (simp add: gen_nul token_bytes_def)
next
  case nul: False
  show ?thesis
  proof (cases "lookup_w (files st) (cwd st) (join d f)")
    case (Inl e)
    with nul show ?thesis by (simp add: gen_refused token_bytes_def)
  next
    case (Inr k)
    with nul gen_written(4)[of d f st k] gen_device_full(4)[of d f st k] show ?thesis
      by (cases "64 \<le> free st + stored (files st) k") simp_all
  qed
qed

lemma gen_files:
  "files (snd (generate_and_write_secret d f st)) k \<noteq> files st k \<Longrightarrow>
     lookup_w (files st) (cwd st) (join d f) = Inr k"
proof (cases "CHR 0x00 \<in> set (join d f)")
  case True
  assume "files (snd (generate_and_write_secret d f st)) k \<noteq> files st k"
  with True show ?thesis by (simp add: gen_nul token_bytes_def)
next
  case nul: False
  assume ch: "files (snd (generate_and_write_secret d f st)) k \<noteq> files st k"
  show ?thesis
  proof (cases "lookup_w (files st) (cwd st) (join d f)")
    case (Inl e)
    with nul ch show ?thesis by (simp add: gen_refused token_bytes_def)
  next
    case (Inr k')
    with nul ch gen_written(2)[of d f st k'] gen_device_full(2)[of d f st k'] show ?thesis
      by (cases "64 \<le> free st + stored (files st) k'") (auto split: if_splits)
  qed
qed

lemma open_w_refused:
  assumes "fst (open_w p st) = Inl (OSError e)"
  shows "CHR 0x00 \<notin> set p \<and> lookup_w (files st) (cwd st) p = Inl e"
  using assms by (auto simp: open_w_def Let_def split: if_splits sum.splits)

lemma gen_target:
  assumes "fst (generate_and_write_secret d f st) = Inr p"
  shows "p = join d f \<and>
         (\<exists>k. lookup_w (files st) (cwd st) (join d f) = Inr k \<and>
              files (snd (generate_and_write_secret d f st)) =
                (files st)(k \<mapsto> File True (hex (fst (token_bytes 32 st)))) \<and>
              lookup (files (snd (generate_and_write_secret d f st)))
                     (cwd (snd (generate_and_write_secret d f st))) p = Inr k)"
proof -
  from assms obtain k where k: "p = join d f" "CHR 0x00 \<notin> set (join d f)"
    "lookup_w (files st) (cwd st) (join d f) = Inr k" "64 \<le> free st + stored (files st) k"
    by (rule gen_success)
  have w: "files (snd (generate_and_write_secret d f st)) =
             (files st)(k \<mapsto> File True (hex (fst (token_bytes 32 st))))"
    by (rule gen_written(2)[OF k(2) k(3) k(4)])
  have "lookup (files (snd (generate_and_write_secret d f st)))
               (cwd (snd (generate_and_write_secret d f st))) p = Inr k"
    unfolding w gen_frame(1) k(1) by (rule lookup_after_write[OF k(3)])
  with k(1) k(3) w show ?thesis by blast
qed


lemma join_fixed: "join ''./crypto_data'' ''link_secret.txt'' = ''./crypto_data/link_secret.txt''"
  by (simp add: join_def startswith_sep_def endswith_sep_def)

lemma join_absolute: "startswith_sep f \<Longrightarrow> join d f = f"
  by (simp add: join_def)

lemma gen_join_cong:
  "join d f = join d' f' \<Longrightarrow> generate_and_write_secret d f st = generate_and_write_secret d' f' st"
  by (simp add: generate_and_write_secret_def)

lemma open_refused_outcome:
  assumes "fst (open_w (join d f) st) = Inl (OSError e)"
  shows "fst (generate_and_write_secret d f st) = Inl (OSError e) \<and>
         files (snd (generate_and_write_secret d f st)) = files st \<and>
         free (snd (generate_and_write_secret d f st)) = free st \<and>
         handles (snd (generate_and_write_secret d f st)) = handles st"
proof -
  from open_w_refused[OF assms]
  have "generate_and_write_secret d f st = (Inl (OSError e), snd (token_bytes 32 st))"
    by (simp add: gen_refused)
  then show ?thesis by (simp add: token_bytes_def)
qed

lemma open_failed_outcome:
  assumes "fst (open_w (join d f) st) = Inl err"
  shows "generate_and_write_secret d f st = (Inl err, snd (token_bytes 32 st))"
proof (cases "CHR 0x00 \<in> set (join d f)")
  case True
  with assms have "err = ValueError" by (simp add: open_w_def)
  with True show ?thesis by (simp add: gen_nul)
next
  case False
  with assms obtain e where "err = OSError e" "lookup_w (files st) (cwd st) (join d f) = Inl e"
    by (auto simp: open_w_def Let_def split: sum.splits)
  with False show ?thesis by (simp add: gen_refused)
qed

subsection \<open>Runs in the example world\<close>

lemma ex_run: "fst (generate_and_write_secret ''/tmp'' ''out.txt'' example_world) = Inr ''/tmp/out.txt''"
  by code_simp

lemma ex_secret: "hex (fst (token_bytes 32 example_world)) =
    ''030a11181f262d343b424950575e656c737a81888f969da4abb2b9c0c7ced5dc''"
  by code_simp

lemma ex_missing: "fst (open_w (join ''/no/such/dir'' ''out.txt'') example_world) = Inl (OSError ENOENT)"
  by code_simp

lemma ex_run_again:
  "fst (generate_and_write_secret ''/tmp'' ''out.txt''
         (snd (generate_and_write_secret ''/tmp'' ''out.txt'' example_world))) = Inr ''/tmp/out.txt''"
  by code_simp

lemma ex_secret_again:
  "hex (fst (token_bytes 32 (snd (generate_and_write_secret ''/tmp'' ''out.txt'' example_world)))) =
     ''e3eaf1f8ff060d141b222930373e454c535a61686f767d848b9299a0a7aeb5bc''"
  by code_simp

lemma ex_draws_differ:
  "fst (token_bytes 32 example_world) \<noteq>
   fst (token_bytes 32 (snd (generate_and_write_secret ''/tmp'' ''out.txt'' example_world)))"
  by code_simp

lemma ex_main_run:
  "fst (generate_and_write_secret ''./crypto_data'' ''link_secret.txt'' example_world)
     = Inr ''./crypto_data/link_secret.txt''"
  by code_simp

lemma ex_full_run:
  "fst (generate_and_write_secret ''/tmp'' ''out.txt'' full_world) = Inl (OSError ENOSPC)"
  by code_simp

lemma ex_full_partial:
  "read_file (snd (generate_and_write_secret ''/tmp'' ''out.txt'' full_world)) ''/tmp/out.txt''
     = Some ''030a11181f''"
  by code_simp

lemma ex_abs_run: "fst (generate_and_write_secret ''/tmp'' ''/ro/f'' example_world) = Inr ''/ro/f''"
  by code_simp

lemma ex_target:
  "CHR 0x00 \<notin> set (join ''/tmp'' ''out.txt'') \<and>
   lookup_w (files example_world) (cwd example_world) (join ''/tmp'' ''out.txt'')
     = Inr [''tmp'', ''out.txt''] \<and>
   64 \<le> free example_world + stored (files example_world) [''tmp'', ''out.txt'']"
  by code_simp

section \<open>The claims\<close>

text \<open>
  C1. When \<open>generate_and_write_secret\<close> returns a path, the file at that path holds exactly
  the hexadecimal text of the 32 bytes drawn and nothing else: 64 characters, twice the
  number of bytes, each of them one of \<open>0-9a-f\<close>, and so no line end.
\<close>

theorem secret_file_content:
  assumes "fst (generate_and_write_secret d f st) = Inr p"
  shows "read_file (snd (generate_and_write_secret d f st)) p = Some (hex (fst (token_bytes 32 st)))
       \<and> length (hex (fst (token_bytes 32 st))) = 64
       \<and> length (hex (fst (token_bytes 32 st))) = 2 * length (fst (token_bytes 32 st))
       \<and> set (hex (fst (token_bytes 32 st))) \<subseteq> set ''0123456789abcdef''
       \<and> CHR 0x0A \<notin> set (hex (fst (token_bytes 32 st)))"
proof -
  have sub: "set (hex (fst (token_bytes 32 st))) \<subseteq> set ''0123456789abcdef''"
    using set_hex[of "fst (token_bytes 32 st)"] by (simp only: hex_digits_def)
  then have "CHR 0x0A \<notin> set (hex (fst (token_bytes 32 st)))" by auto
  with sub gen_read[OF assms] show ?thesis
    by (simp only: length_secret_hex length_hex length_token_bytes) simp
qed

theorem secret_file_content_witness:
  "read_file (snd (generate_and_write_secret ''/tmp'' ''out.txt'' example_world)) ''/tmp/out.txt''
     = Some ''030a11181f262d343b424950575e656c737a81888f969da4abb2b9c0c7ced5dc''"
  using secret_file_content[OF ex_run] by (simp only: ex_secret)

text \<open>
  C2. The path a call returns is the join of the directory and the file name as
  \<open>os.path.join\<close> forms it, and it is the path written to: the only object the call
  has stored text in is the one this path names, before the call and after it.
\<close>

theorem returned_path_is_join:
  assumes "fst (generate_and_write_secret d f st) = Inr p"
  shows "p = join d f \<and>
         (\<exists>k. lookup_w (files st) (cwd st) (join d f) = Inr k \<and>
              files (snd (generate_and_write_secret d f st)) =
                (files st)(k \<mapsto> File True (hex (fst (token_bytes 32 st)))) \<and>
              lookup (files (snd (generate_and_write_secret d f st)))
                     (cwd (snd (generate_and_write_secret d f st))) p = Inr k)"
  using assms by (rule gen_target)

theorem returned_path_is_join_witness:
  "fst (generate_and_write_secret ''/tmp'' ''out.txt'' example_world) = Inr ''/tmp/out.txt'' \<and>
   join ''/tmp'' ''out.txt'' = ''/tmp/out.txt''"
  using returned_path_is_join[OF ex_run] ex_run by simp

text \<open>
  C3. When the file at the joined path cannot be created or opened, that is, when the
  operating system refuses the \<open>open\<close> with an error number \<open>e\<close>, the call fails
  with that very error, neither caught nor turned into another one, and the file system is
  as it was: no file has been created, no space used, no descriptor left open. For a path
  without a NUL character the \<open>open\<close> is refused when the directory argument is not
  empty, the file name is relative and the directory does not exist; and when the
  directory exists but may not be written, the file name is a plain name and no object is
  at the joined path yet.
\<close>

theorem open_failure_propagates:
  "(fst (open_w (join d f) st) = Inl (OSError e) \<longrightarrow>
      fst (generate_and_write_secret d f st) = Inl (OSError e) \<and>
      files (snd (generate_and_write_secret d f st)) = files st \<and>
      free (snd (generate_and_write_secret d f st)) = free st \<and>
      handles (snd (generate_and_write_secret d f st)) = handles st) \<and>
   (d \<noteq> [] \<and> \<not> startswith_sep f \<and> CHR 0x00 \<notin> set (join d f) \<and> \<not> directory_exists st d \<longrightarrow>
      (\<exists>e'. fst (generate_and_write_secret d f st) = Inl (OSError e')) \<and>
      files (snd (generate_and_write_secret d f st)) = files st) \<and>
   (d \<noteq> [] \<and> plain_name f \<and> CHR 0x00 \<notin> set (join d f) \<and> directory_exists st d \<and>
    \<not> directory_writable st d \<and> \<not> path_exists st (join d f) \<longrightarrow>
      fst (generate_and_write_secret d f st) = Inl (OSError EACCES) \<and>
      files (snd (generate_and_write_secret d f st)) = files st)"
proof (intro conjI impI)
  assume "fst (open_w (join d f) st) = Inl (OSError e)"
  from open_refused_outcome[OF this]
  show "fst (generate_and_write_secret d f st) = Inl (OSError e)"
    and "files (snd (generate_and_write_secret d f st)) = files st"
    and "free (snd (generate_and_write_secret d f st)) = free st"
    and "handles (snd (generate_and_write_secret d f st)) = handles st"
    by simp_all
next
  assume a: "d \<noteq> [] \<and> \<not> startswith_sep f \<and> CHR 0x00 \<notin> set (join d f) \<and> \<not> directory_exists st d"
  then obtain e' where "fst (open_w (join d f) st) = Inl (OSError e')"
    using missing_directory_refused[of d f st] by blast
  from open_refused_outcome[OF this]
  show "\<exists>e'. fst (generate_and_write_secret d f st) = Inl (OSError e')"
    and "files (snd (generate_and_write_secret d f st)) = files st"
    by blast+
next
  assume "d \<noteq> [] \<and> plain_name f \<and> CHR 0x00 \<notin> set (join d f) \<and> directory_exists st d \<and>
    \<not> directory_writable st d \<and> \<not> path_exists st (join d f)"
  then have "fst (open_w (join d f) st) = Inl (OSError EACCES)"
    using unwritable_directory_refused[of d f st] by blast
  from open_refused_outcome[OF this]
  show "fst (generate_and_write_secret d f st) = Inl (OSError EACCES)"
    and "files (snd (generate_and_write_secret d f st)) = files st"
    by simp_all
qed

theorem open_failure_propagates_witness:
  "fst (generate_and_write_secret ''/no/such/dir'' ''out.txt'' example_world) = Inl (OSError ENOENT) \<and>
   files (snd (generate_and_write_secret ''/no/such/dir'' ''out.txt'' example_world))
     [''no'', ''such'', ''dir'', ''out.txt''] = None \<and>
   fst (generate_and_write_secret ''/ro'' ''out.txt'' example_world) = Inl (OSError EACCES) \<and>
   files (snd (generate_and_write_secret ''/ro'' ''out.txt'' example_world)) [''ro'', ''out.txt''] = None"
proof -
  have absent: "files example_world [''no'', ''such'', ''dir'', ''out.txt''] = None"
    "files example_world [''ro'', ''out.txt''] = None"
    by code_simp+
  have missing: "''/no/such/dir'' \<noteq> [] \<and> \<not> startswith_sep ''out.txt'' \<and>
      CHR 0x00 \<notin> set (join ''/no/such/dir'' ''out.txt'') \<and>
      \<not> directory_exists example_world ''/no/such/dir''"
    by code_simp
  have readonly: "''/ro'' \<noteq> [] \<and> plain_name ''out.txt'' \<and> CHR 0x00 \<notin> set (join ''/ro'' ''out.txt'') \<and>
      directory_exists example_world ''/ro'' \<and> \<not> directory_writable example_world ''/ro'' \<and>
      \<not> path_exists example_world (join ''/ro'' ''out.txt'')"
    by code_simp
  from open_failure_propagates[of "''/no/such/dir''" "''out.txt''" example_world ENOENT]
    ex_missing missing
  have 1: "fst (generate_and_write_secret ''/no/such/dir'' ''out.txt'' example_world)
             = Inl (OSError ENOENT)"
    and 2: "files (snd (generate_and_write_secret ''/no/such/dir'' ''out.txt'' example_world))
             = files example_world"
    by blast+
  from open_failure_propagates[of "''/ro''" "''out.txt''" example_world EACCES] readonly
  have 3: "fst (generate_and_write_secret ''/ro'' ''out.txt'' example_world) = Inl (OSError EACCES)"
    and 4: "files (snd (generate_and_write_secret ''/ro'' ''out.txt'' example_world))
             = files example_world"
    by blast+
  from 1 2 3 4 absent show ?thesis by simp
qed

text \<open>
  The state of the directory alone does not decide the outcome. In the example world
  \<open>/ro\<close> exists and may not be written, yet the file \<open>/ro/f\<close> in it is opened
  and overwritten; \<open>/no/such/dir\<close> does not exist, yet with the absolute file name
  \<open>/tmp/out.txt\<close> the call returns that name; the empty directory argument names no
  directory, yet the file is written in the working directory; and a directory argument
  with a NUL character makes the call fail with \<open>ValueError\<close>, which is not an error
  of the file system.
\<close>

theorem directory_state_does_not_decide:
  "directory_exists example_world ''/ro'' \<and> \<not> directory_writable example_world ''/ro'' \<and>
   fst (generate_and_write_secret ''/ro'' ''f'' example_world) = Inr ''/ro/f'' \<and>
   \<not> directory_exists example_world ''/no/such/dir'' \<and>
   fst (generate_and_write_secret ''/no/such/dir'' ''/tmp/out.txt'' example_world) = Inr ''/tmp/out.txt'' \<and>
   \<not> directory_exists example_world [] \<and>
   fst (generate_and_write_secret [] ''out.txt'' example_world) = Inr ''out.txt'' \<and>
   \<not> directory_exists example_world [CHR 0x00] \<and>
   fst (generate_and_write_secret [CHR 0x00] ''out.txt'' example_world) = Inl ValueError"
  by code_simp

text \<open>
  C4. Two calls in a row with the same directory and file name return the same path, and
  after the second call the file holds the 64 characters of the second call only: the text
  of the first call has been replaced, not appended to or merged.
\<close>

theorem second_write_replaces_first:
  assumes "fst (generate_and_write_secret d f st) = Inr p"
    and "st1 = snd (generate_and_write_secret d f st)"
    and "fst (generate_and_write_secret d f st1) = Inr p'"
  shows "p' = p \<and>
         read_file st1 p = Some (hex (fst (token_bytes 32 st))) \<and>
         read_file (snd (generate_and_write_secret d f st1)) p = Some (hex (fst (token_bytes 32 st1))) \<and>
         length (hex (fst (token_bytes 32 st1))) = 64"
proof -
  from assms(1) have p: "p = join d f" by (rule gen_success)
  from assms(3) have p': "p' = join d f" by (rule gen_success)
  from gen_read[OF assms(1)] assms(2)
  have r1: "read_file st1 p = Some (hex (fst (token_bytes 32 st)))" by simp
  from gen_read[OF assms(3)] p p'
  have r2: "read_file (snd (generate_and_write_secret d f st1)) p = Some (hex (fst (token_bytes 32 st1)))"
    by simp
  from p p' r1 r2 show ?thesis by (simp add: length_secret_hex)
qed

theorem second_write_replaces_first_witness:
  "read_file (snd (generate_and_write_secret ''/tmp'' ''out.txt'' example_world)) ''/tmp/out.txt''
     = Some ''030a11181f262d343b424950575e656c737a81888f969da4abb2b9c0c7ced5dc'' \<and>
   read_file (snd (generate_and_write_secret ''/tmp'' ''out.txt''
                (snd (generate_and_write_secret ''/tmp'' ''out.txt'' example_world)))) ''/tmp/out.txt''
     = Some ''e3eaf1f8ff060d141b222930373e454c535a61686f767d848b9299a0a7aeb5bc''"
  using second_write_replaces_first[OF ex_run refl ex_run_again]
  by (simp only: ex_secret ex_secret_again)

text \<open>
  C5. Hexadecimal encoding loses nothing: whenever the bytes drawn by two calls in a row
  differ, so do the two texts, and the file the second call has written differs from the
  file the first call had written. A second call is therefore not a repetition of the
  first. (How likely two draws are to differ is a property of the random source, which is
  a parameter of the world here.)
\<close>

theorem different_draws_different_secrets:
  assumes "fst (generate_and_write_secret d f st) = Inr p"
    and "st1 = snd (generate_and_write_secret d f st)"
    and "fst (generate_and_write_secret d' f' st1) = Inr p'"
    and "fst (token_bytes 32 st) \<noteq> fst (token_bytes 32 st1)"
  shows "hex (fst (token_bytes 32 st)) \<noteq> hex (fst (token_bytes 32 st1)) \<and>
         read_file st1 p \<noteq> read_file (snd (generate_and_write_secret d' f' st1)) p'"
proof -
  from assms(4) have ne: "hex (fst (token_bytes 32 st)) \<noteq> hex (fst (token_bytes 32 st1))"
    using hex_inj by blast
  from gen_read[OF assms(1)] assms(2)
  have r1: "read_file st1 p = Some (hex (fst (token_bytes 32 st)))" by simp
  have r2: "read_file (snd (generate_and_write_secret d' f' st1)) p' = Some (hex (fst (token_bytes 32 st1)))"
    by (rule gen_read[OF assms(3)])
  from ne r1 r2 show ?thesis by simp
qed

theorem different_draws_different_secrets_witness:
  "read_file (snd (generate_and_write_secret ''/tmp'' ''out.txt'' example_world)) ''/tmp/out.txt'' \<noteq>
   read_file (snd (generate_and_write_secret ''/tmp'' ''out.txt''
                (snd (generate_and_write_secret ''/tmp'' ''out.txt'' example_world)))) ''/tmp/out.txt''"
  using different_draws_different_secrets[OF ex_run refl ex_run_again ex_draws_differ]
  by simp

text \<open>
  C6. A call in which the file at the joined path can be opened creates or overwrites
  exactly one file, that one: with room on the device the call returns the joined path
  and the file system afterwards is the one before with the secret in that file, and the
  file at the returned path is always this file; without room the call fails and that file
  holds the part that fitted. A call whose \<open>open\<close> fails creates and changes no file
  at all. In every case no other object of the file system differs afterwards, and the
  working directory, the open descriptors and standard output are as before. The world
  has no other component the call could act on: the script calls nothing that reaches a
  network.
\<close>

theorem writes_one_file_or_none:
  "(CHR 0x00 \<notin> set (join d f) \<and> lookup_w (files st) (cwd st) (join d f) = Inr t \<and>
    64 \<le> free st + stored (files st) t \<longrightarrow>
      fst (generate_and_write_secret d f st) = Inr (join d f) \<and>
      files (snd (generate_and_write_secret d f st)) =
        (files st)(t \<mapsto> File True (hex (fst (token_bytes 32 st))))) \<and>
   (CHR 0x00 \<notin> set (join d f) \<and> lookup_w (files st) (cwd st) (join d f) = Inr t \<and>
    \<not> 64 \<le> free st + stored (files st) t \<longrightarrow>
      fst (generate_and_write_secret d f st) = Inl (OSError ENOSPC) \<and>
      files (snd (generate_and_write_secret d f st)) =
        (files st)(t \<mapsto> File True (take (free st + stored (files st) t)
                                       (hex (fst (token_bytes 32 st)))))) \<and>
   (fst (open_w (join d f) st) = Inl err \<longrightarrow>
      fst (generate_and_write_secret d f st) = Inl err \<and>
      files (snd (generate_and_write_secret d f st)) = files st) \<and>
   (fst (generate_and_write_secret d f st) = Inr p \<longrightarrow>
      (\<exists>t'. lookup_w (files st) (cwd st) p = Inr t' \<and>
            files (snd (generate_and_write_secret d f st)) =
              (files st)(t' \<mapsto> File True (hex (fst (token_bytes 32 st)))))) \<and>
   (files (snd (generate_and_write_secret d f st)) k \<noteq> files st k \<longrightarrow>
      lookup_w (files st) (cwd st) (join d f) = Inr k) \<and>
   cwd (snd (generate_and_write_secret d f st)) = cwd st \<and>
   handles (snd (generate_and_write_secret d f st)) = handles st \<and>
   stdout (snd (generate_and_write_secret d f st)) = stdout st \<and>
   entropy (snd (generate_and_write_secret d f st)) = entropy st"
proof (intro conjI impI)
  assume a: "CHR 0x00 \<notin> set (join d f) \<and> lookup_w (files st) (cwd st) (join d f) = Inr t \<and>
    64 \<le> free st + stored (files st) t"
  then show "fst (generate_and_write_secret d f st) = Inr (join d f)"
    using gen_written(1)[of d f st t] by blast
  from a show "files (snd (generate_and_write_secret d f st)) =
        (files st)(t \<mapsto> File True (hex (fst (token_bytes 32 st))))"
    using gen_written(2)[of d f st t] by blast
next
  assume a: "CHR 0x00 \<notin> set (join d f) \<and> lookup_w (files st) (cwd st) (join d f) = Inr t \<and>
    \<not> 64 \<le> free st + stored (files st) t"
  then show "fst (generate_and_write_secret d f st) = Inl (OSError ENOSPC)"
    using gen_device_full(1)[of d f st t] by blast
  from a show "files (snd (generate_and_write_secret d f st)) =
        (files st)(t \<mapsto> File True (take (free st + stored (files st) t)
                                       (hex (fst (token_bytes 32 st)))))"
    using gen_device_full(2)[of d f st t] by blast
next
  assume "fst (open_w (join d f) st) = Inl err"
  then have o: "generate_and_write_secret d f st = (Inl err, snd (token_bytes 32 st))"
    by (rule open_failed_outcome)
  show "fst (generate_and_write_secret d f st) = Inl err" by (simp add: o)
  show "files (snd (generate_and_write_secret d f st)) = files st"
    by (simp add: o token_bytes_def)
next
  assume s: "fst (generate_and_write_secret d f st) = Inr p"
  from gen_target[OF s]
  show "\<exists>t'. lookup_w (files st) (cwd st) p = Inr t' \<and>
            files (snd (generate_and_write_secret d f st)) =
              (files st)(t' \<mapsto> File True (hex (fst (token_bytes 32 st))))"
    by auto
next
  assume "files (snd (generate_and_write_secret d f st)) k \<noteq> files st k"
  then show "lookup_w (files st) (cwd st) (join d f) = Inr k" by (rule gen_files)
qed (simp_all add: gen_frame gen_handles)

theorem writes_one_file_or_none_witness:
  "files example_world [''tmp'', ''out.txt''] = None \<and>
   files (snd (generate_and_write_secret ''/tmp'' ''out.txt'' example_world)) [''tmp'', ''out.txt'']
     = Some (File True ''030a11181f262d343b424950575e656c737a81888f969da4abb2b9c0c7ced5dc'') \<and>
   files (snd (generate_and_write_secret ''/tmp'' ''out.txt'' example_world)) [''ro'', ''f'']
     = Some (File True ''old'') \<and>
   files (snd (generate_and_write_secret ''/no/such/dir'' ''out.txt'' example_world))
     = files example_world"
proof -
  have before: "files example_world [''tmp'', ''out.txt''] = None"
    "files example_world [''ro'', ''f''] = Some (File True ''old'')"
    by code_simp+
  from writes_one_file_or_none[of "''/tmp''" "''out.txt''" example_world "[''tmp'', ''out.txt'']"]
    ex_target
  have w: "files (snd (generate_and_write_secret ''/tmp'' ''out.txt'' example_world)) =
        (files example_world)([''tmp'', ''out.txt''] \<mapsto>
           File True (hex (fst (token_bytes 32 example_world))))"
    by blast
  from writes_one_file_or_none[of "''/no/such/dir''" "''out.txt''" example_world _ "OSError ENOENT"]
    ex_missing
  have r: "files (snd (generate_and_write_secret ''/no/such/dir'' ''out.txt'' example_world))
        = files example_world"
    by blast
  from before w r show ?thesis by (simp add: ex_secret)
qed

text \<open>
  Not every call creates or overwrites a file: the call with the directory
  \<open>/no/such/dir\<close> fails and leaves the file system exactly as it was.
\<close>

theorem refused_call_writes_no_file:
  "fst (generate_and_write_secret ''/no/such/dir'' ''out.txt'' example_world) = Inl (OSError ENOENT) \<and>
   files (snd (generate_and_write_secret ''/no/such/dir'' ''out.txt'' example_world)) = files example_world"
  using open_refused_outcome[OF ex_missing] by simp

text \<open>
  C7. Run as a program, the script calls \<open>generate_and_write_secret\<close> with the
  directory \<open>./crypto_data\<close> and the file name \<open>link_secret.txt\<close>. When that call
  returns a path, the path is \<open>./crypto_data/link_secret.txt\<close> and standard output grows
  by exactly the line \<open>Saved LinkSecretFile to\<close> followed by the path; nothing else
  differs from the state the call left. When the call fails, its error ends the program
  and nothing is printed.
\<close>

theorem main_prints_confirmation:
  "(fst (generate_and_write_secret ''./crypto_data'' ''link_secret.txt'' st) = Inr p \<longrightarrow>
      p = ''./crypto_data/link_secret.txt'' \<and>
      main st = (Inr (), (snd (generate_and_write_secret ''./crypto_data'' ''link_secret.txt'' st))
                          \<lparr>stdout := stdout st @ ''Saved LinkSecretFile to '' @ p @ [CHR 0x0A]\<rparr>)) \<and>
   (fst (generate_and_write_secret ''./crypto_data'' ''link_secret.txt'' st) = Inl e \<longrightarrow>
      main st = (Inl e, snd (generate_and_write_secret ''./crypto_data'' ''link_secret.txt'' st)) \<and>
      stdout (snd (main st)) = stdout st)"
proof (intro conjI impI)
  assume s: "fst (generate_and_write_secret ''./crypto_data'' ''link_secret.txt'' st) = Inr p"
  from s have "p = join ''./crypto_data'' ''link_secret.txt''" by (rule gen_success)
  then show p: "p = ''./crypto_data/link_secret.txt''" by (simp only: join_fixed)
  from s gen_frame(4)[of "''./crypto_data''" "''link_secret.txt''" st]
  show "main st = (Inr (), (snd (generate_and_write_secret ''./crypto_data'' ''link_secret.txt'' st))
                          \<lparr>stdout := stdout st @ ''Saved LinkSecretFile to '' @ p @ [CHR 0x0A]\<rparr>)"
    by (cases "generate_and_write_secret ''./crypto_data'' ''link_secret.txt'' st")
       (simp add: main_def print_def)
next
  assume f: "fst (generate_and_write_secret ''./crypto_data'' ''link_secret.txt'' st) = Inl e"
  then show m: "main st = (Inl e, snd (generate_and_write_secret ''./crypto_data'' ''link_secret.txt'' st))"
    by (cases "generate_and_write_secret ''./crypto_data'' ''link_secret.txt'' st")
       (simp add: main_def)
  show "stdout (snd (main st)) = stdout st"
    unfolding m by (simp add: gen_frame)
qed

theorem main_prints_confirmation_witness:
  "stdout (snd (main example_world)) =
     ''Saved LinkSecretFile to ./crypto_data/link_secret.txt'' @ [CHR 0x0A]"
proof -
  have "stdout example_world = []" by code_simp
  with main_prints_confirmation[of example_world "''./crypto_data/link_secret.txt''"] ex_main_run
  show ?thesis by simp
qed

text \<open>
  C8. On every way out of \<open>generate_and_write_secret\<close> the descriptors open
  afterwards are those open before, also when the write fails halfway: the descriptor
  \<open>open\<close> had handed out, in use while the file was written, is not in use any more.
\<close>

theorem file_handle_released:
  "handles (snd (generate_and_write_secret d f st)) = handles st \<and>
   (fst (open_w (join d f) (snd (token_bytes 32 st))) = Inr fd \<longrightarrow>
      fd \<in> fst ` set (handles (snd (open_w (join d f) (snd (token_bytes 32 st))))) \<and>
      fd \<notin> fst ` set (handles (snd (generate_and_write_secret d f st))))"
proof (intro conjI impI)
  show h: "handles (snd (generate_and_write_secret d f st)) = handles st" by (rule gen_handles)
  assume o: "fst (open_w (join d f) (snd (token_bytes 32 st))) = Inr fd"
  then have fd: "fd = new_fd (handles st)"
    by (auto simp: open_w_def token_bytes_def Let_def split: if_splits sum.splits)
  from o show "fd \<in> fst ` set (handles (snd (open_w (join d f) (snd (token_bytes 32 st)))))"
    by (auto simp: open_w_def token_bytes_def Let_def split: if_splits sum.splits)
  have "\<forall>h\<in>set (handles st). fst h < new_fd (handles st)" by (simp add: new_fd_above)
  then have "new_fd (handles st) \<notin> fst ` set (handles st)" by fastforce
  then show "fd \<notin> fst ` set (handles (snd (generate_and_write_secret d f st)))"
    by (simp only: h fd not_False_eq_True)
qed

theorem file_handle_released_witness:
  "fst (generate_and_write_secret ''/tmp'' ''out.txt'' full_world) = Inl (OSError ENOSPC) \<and>
   handles (snd (generate_and_write_secret ''/tmp'' ''out.txt'' full_world)) = [] \<and>
   3 \<notin> fst ` set (handles (snd (generate_and_write_secret ''/tmp'' ''out.txt'' full_world))) \<and>
   read_file (snd (generate_and_write_secret ''/tmp'' ''out.txt'' full_world)) ''/tmp/out.txt''
     = Some ''030a11181f''"
proof -
  have "handles full_world = []" by code_simp
  moreover have "fst (open_w (join ''/tmp'' ''out.txt'') (snd (token_bytes 32 full_world))) = Inr 3"
    by code_simp
  ultimately show ?thesis
    using file_handle_released[of "''/tmp''" "''out.txt''" full_world 3] ex_full_run ex_full_partial
    by simp
qed

text \<open>
  C9. When a call returns a path, decoding the content of the file at that path with
  \<open>bytes.fromhex\<close> gives back exactly the 32 bytes that were drawn.
\<close>

theorem hex_round_trip:
  assumes "fst (generate_and_write_secret d f st) = Inr p"
  shows "\<exists>content. read_file (snd (generate_and_write_secret d f st)) p = Some content \<and>
           fromhex content = Some (fst (token_bytes 32 st)) \<and>
           length (fst (token_bytes 32 st)) = 32"
  using gen_read[OF assms] by (simp add: fromhex_hex length_token_bytes)

theorem hex_round_trip_witness:
  "fromhex ''030a11181f262d343b424950575e656c737a81888f969da4abb2b9c0c7ced5dc''
     = Some (fst (token_bytes 32 example_world))"
  using hex_round_trip[OF ex_run] gen_read[OF ex_run] by (simp add: ex_secret)

text \<open>
  C10. When the file name starts with \<open>/\<close> the directory plays no part: the joined
  path is the file name, the call does what it does for any other directory, the path it
  returns is the file name and the secret is in the file of that name.
\<close>

theorem absolute_file_name_ignores_directory:
  assumes "startswith_sep f"
  shows "join d f = f \<and>
         generate_and_write_secret d f st = generate_and_write_secret d' f st \<and>
         (fst (generate_and_write_secret d f st) = Inr p \<longrightarrow>
            p = f \<and>
            read_file (snd (generate_and_write_secret d f st)) f = Some (hex (fst (token_bytes 32 st))))"
proof (intro conjI impI)
  show j: "join d f = f" using assms by (rule join_absolute)
  have "join d f = join d' f" using assms by (simp add: join_absolute)
  then show "generate_and_write_secret d f st = generate_and_write_secret d' f st"
    by (rule gen_join_cong)
  assume s: "fst (generate_and_write_secret d f st) = Inr p"
  from s have "p = join d f" by (rule gen_success)
  with j show p: "p = f" by simp
  from gen_read[OF s] p
  show "read_file (snd (generate_and_write_secret d f st)) f = Some (hex (fst (token_bytes 32 st)))"
    by simp
qed

theorem absolute_file_name_ignores_directory_witness:
  "join ''/tmp'' ''/ro/f'' = ''/ro/f'' \<and>
   read_file (snd (generate_and_write_secret ''/tmp'' ''/ro/f'' example_world)) ''/ro/f''
     = Some ''030a11181f262d343b424950575e656c737a81888f969da4abb2b9c0c7ced5dc''"
proof -
  have a: "startswith_sep ''/ro/f''" by code_simp
  from absolute_file_name_ignores_directory[OF a, of "''/tmp''" example_world "''/tmp''" "''/ro/f''"] ex_abs_run
  show ?thesis by (simp add: ex_secret)
qed

end
